theory Spec2Isabelle
  imports Main "HOL-Library.Char_ord" "HOL-Library.List_Lexorder" "HOL-Library.Sublist"
    "HOL-Library.AList"
begin

section \<open>Paths\<close>

text \<open>
  A \<^verbatim>\<open>pathlib.Path\<close> relative to the working directory is the list of its components
  (pathlib's \<^verbatim>\<open>parts\<close>); \<^verbatim>\<open>Path()\<close> is the empty list. Every path the program builds
  starts from \<^verbatim>\<open>Path()\<close>, so all paths are relative.
\<close>

type_synonym path = "string list"

text \<open>\<^verbatim>\<open>p.parent\<close>; the parent of \<^verbatim>\<open>Path()\<close> is \<^verbatim>\<open>Path()\<close> itself.\<close>

definition parent :: "path \<Rightarrow> path" where
  "parent p = butlast p"

text \<open>\<^verbatim>\<open>p.name\<close>: the last component, the empty string for \<^verbatim>\<open>Path()\<close>.\<close>

definition name :: "path \<Rightarrow> string" where
  "name p = (if p = [] then [] else last p)"

text \<open>
  The components of a string given to the \<^verbatim>\<open>/\<close> operator: cut at every slash; empty
  components and single dots are dropped, as pathlib does. Two things pathlib and the
  operating system do are not represented: a string that starts with a slash makes the
  result absolute (here it is read as relative), and a component \<^verbatim>\<open>..\<close> names the parent
  directory (here it is a component like any other). File names found by a scan are never
  of these kinds; titles and author names can be, and the statements below that depend on
  where such a name leads are made for proper file names only.
\<close>

fun split_slash :: "string \<Rightarrow> string \<Rightarrow> string list" where
  "split_slash acc [] = [rev acc]"
| "split_slash acc (c # cs) =
     (if c = CHR ''/'' then rev acc # split_slash [] cs else split_slash (c # acc) cs)"

definition parts :: "string \<Rightarrow> path" where
  "parts s = filter (\<lambda>c. c \<noteq> [] \<and> c \<noteq> ''.'') (split_slash [] s)"

text \<open>\<^verbatim>\<open>p / s\<close>\<close>

definition join :: "path \<Rightarrow> string \<Rightarrow> path" where
  "join p s = p @ parts s"

text \<open>\<^verbatim>\<open>p.as_posix()\<close> (and \<^verbatim>\<open>str(p)\<close> on a POSIX system).\<close>

fun intercalate_slash :: "string list \<Rightarrow> string" where
  "intercalate_slash [] = []"
| "intercalate_slash [c] = c"
| "intercalate_slash (c # cs) = c @ ''/'' @ intercalate_slash cs"

definition as_posix :: "path \<Rightarrow> string" where
  "as_posix p = (if p = [] then ''.'' else intercalate_slash p)"

text \<open>
  \<^verbatim>\<open>p.suffix\<close>: the part of the name from its last dot on, when that dot is neither the
  first nor the last character of the name; the empty string otherwise.
\<close>

definition suffix_of_name :: "string \<Rightarrow> string" where
  "suffix_of_name n =
     (let ext = rev (takeWhile (\<lambda>c. c \<noteq> CHR ''.'') (rev n)) in
      if CHR ''.'' \<notin> set n then []
      else if length n - length ext - 1 = 0 \<or> ext = [] then []
      else CHR ''.'' # ext)"

definition path_suffix :: "path \<Rightarrow> string" where
  "path_suffix p = suffix_of_name (name p)"

text \<open>The glob pattern \<^verbatim>\<open>*.epub\<close> on one name (case sensitive, as on POSIX).\<close>

definition matches_epub :: "string \<Rightarrow> bool" where
  "matches_epub n = Sublist.suffix ''.epub'' n"

section \<open>The file system and the metadata library\<close>

datatype error =
    FileNotFoundError | FileExistsError | IsADirectoryError | NotADirectoryError
  | DirectoryNotEmpty | UnboundLocalError | DecodeError | EncodeError | EOFError

text \<open>The fields of \<^verbatim>\<open>ebookmeta\<close>'s metadata object that the program reads.\<close>

record Metadata =
  "identifier" :: string
  title :: string
  author_list :: "string list"
  "file" :: string

text \<open>
  A node of the file system: a directory, or a regular file. The content of a file is
  what the metadata library decodes from it: \<open>None\<close> for a file it cannot decode.
\<close>

datatype node = Dir | File "Metadata option"

text \<open>
  The file system below the working directory: an association list from paths to nodes,
  in the order in which a directory scan enumerates them. The working directory itself
  always exists and has no entry.
\<close>

type_synonym filesystem = "(path \<times> node) list"

definition is_file :: "filesystem \<Rightarrow> path \<Rightarrow> bool" where
  "is_file d p = (case map_of d p of Some (File c) \<Rightarrow> True | _ \<Rightarrow> False)"

definition is_dir :: "filesystem \<Rightarrow> path \<Rightarrow> bool" where
  "is_dir d p = (p = [] \<or> map_of d p = Some Dir)"

definition exists_path :: "filesystem \<Rightarrow> path \<Rightarrow> bool" where
  "exists_path d p = (p = [] \<or> map_of d p \<noteq> None)"

text \<open>\<^verbatim>\<open>p.iterdir()\<close>: the entries directly inside \<open>p\<close>.\<close>

definition iterdir :: "filesystem \<Rightarrow> path \<Rightarrow> path list" where
  "iterdir d p = filter (\<lambda>q. q \<noteq> [] \<and> parent q = p) (map fst d)"

text \<open>
  \<^verbatim>\<open>p.rglob("*")\<close> and \<^verbatim>\<open>p.rglob("*.epub")\<close>: every entry below \<open>p\<close>, at any depth, whose
  name matches; nothing when \<open>p\<close> is not a directory.
\<close>

definition rglob_all :: "filesystem \<Rightarrow> path \<Rightarrow> path list" where
  "rglob_all d p = (if is_dir d p then filter (strict_prefix p) (map fst d) else [])"

definition rglob_epub :: "filesystem \<Rightarrow> path \<Rightarrow> path list" where
  "rglob_epub d p = filter (\<lambda>q. matches_epub (name q)) (rglob_all d p)"

text \<open>
  \<^verbatim>\<open>src.rename(dst)\<close> for a regular file \<open>src\<close>, as POSIX \<^verbatim>\<open>rename\<close> does it: the source
  must exist, the target must lie in an existing directory, a file at the target is
  replaced silently, and renaming a file to itself changes nothing. (The program renames
  regular files only: every source has passed \<^verbatim>\<open>is_file\<close> or has just been decoded. A
  directory as source is answered with an error here.)
\<close>

definition rename :: "filesystem \<Rightarrow> path \<Rightarrow> path \<Rightarrow> error + filesystem" where
  "rename d src dst =
     (case map_of d src of
        None \<Rightarrow> Inl FileNotFoundError
      | Some Dir \<Rightarrow> Inl IsADirectoryError
      | Some (File c) \<Rightarrow>
          if is_file d (parent dst) then Inl NotADirectoryError
          else if \<not> is_dir d (parent dst) then Inl FileNotFoundError
          else if dst = src then Inr d
          else if is_dir d dst then Inl IsADirectoryError
          else Inr (AList.update dst (File c) (AList.delete src d)))"

text \<open>\<^verbatim>\<open>p.mkdir(parents=True, exist_ok=True)\<close>\<close>

fun mkdir_prefixes :: "filesystem \<Rightarrow> path \<Rightarrow> string list \<Rightarrow> error + filesystem" where
  "mkdir_prefixes d p [] = Inr d"
| "mkdir_prefixes d p (c # cs) =
     (if is_file d (p @ [c]) then Inl (if cs = [] then FileExistsError else NotADirectoryError)
      else mkdir_prefixes (if is_dir d (p @ [c]) then d else AList.update (p @ [c]) Dir d)
             (p @ [c]) cs)"

definition mkdir :: "filesystem \<Rightarrow> path \<Rightarrow> error + filesystem" where
  "mkdir d p = mkdir_prefixes d [] p"

text \<open>\<^verbatim>\<open>p.rmdir()\<close>: the directory must exist and be empty.\<close>

definition rmdir :: "filesystem \<Rightarrow> path \<Rightarrow> error + filesystem" where
  "rmdir d p =
     (case map_of d p of
        None \<Rightarrow> Inl FileNotFoundError
      | Some (File c) \<Rightarrow> Inl NotADirectoryError
      | Some Dir \<Rightarrow> if iterdir d p \<noteq> [] then Inl DirectoryNotEmpty
                    else Inr (AList.delete p d))"

text \<open>
  Modelled from the spec: MetadataPort, the \<^verbatim>\<open>ebookmeta\<close> library, which is not part of
  the repository. \<^verbatim>\<open>read(path) -> {identifier, title, author_list} | DecodeError\<close>: reading
  succeeds on a decodable regular file and records the path it was given in \<open>file\<close>.
\<close>

definition get_metadata :: "filesystem \<Rightarrow> path \<Rightarrow> error + Metadata" where
  "get_metadata d p =
     (case map_of d p of
        Some (File (Some m)) \<Rightarrow> Inr (m\<lparr>file := as_posix p\<rparr>)
      | _ \<Rightarrow> Inl DecodeError)"

text \<open>
  Modelled from the spec: MetadataPort,
  \<^verbatim>\<open>write(path, {title?, author_list?}) -> ok | EncodeError\<close>: writing replaces the title
  and the author list stored in a decodable regular file, and fails on anything else.
\<close>

definition set_metadata :: "filesystem \<Rightarrow> path \<Rightarrow> Metadata \<Rightarrow> error + filesystem" where
  "set_metadata d p m =
     (case map_of d p of
        Some (File (Some old)) \<Rightarrow>
          Inr (AList.update p (File (Some (old\<lparr>title := title m, author_list := author_list m\<rparr>))) d)
      | _ \<Rightarrow> Inl EncodeError)"

section \<open>The program state\<close>

text \<open>One dictionary of \<^verbatim>\<open>self.data\<close>.\<close>

record entry =
  is_duplicate :: bool
  is_failed :: bool
  metadata :: Metadata
  path :: path

text \<open>
  The \<^verbatim>\<open>Epub\<close> instance together with the world it acts on: the file system, the lines
  the operator will type, and the report file once it is written.
\<close>

record Epub =
  data :: "entry list"
  identifier_list :: "string list"
  epub_list :: "path list"
  disk :: filesystem
  stdin :: "string list"
  csv_output :: "(string list \<times> string list list) option"

definition duplicate_folder :: path where
  "duplicate_folder = join [] ''[duplicates]''"

definition failed_folder :: path where
  "failed_folder = join [] ''[failed]''"

definition processed_folder :: path where
  "processed_folder = join [] ''[processed]''"

text \<open>
  The outcome of a method: the state it returns in, or the exception it raises together
  with the state at that moment (what it had already changed stays changed).
\<close>

type_synonym outcome = "(error \<times> Epub) + Epub"

text \<open>
  \<^verbatim>\<open>Epub()\<close> with the default fields, on a file system \<open>d\<close> and with the lines \<open>inp\<close>
  the operator is going to type: the instance starts with empty lists, and
  \<^verbatim>\<open>__post_init__\<close> creates the three managed folders.
\<close>

definition fresh :: "filesystem \<Rightarrow> string list \<Rightarrow> Epub" where
  "fresh d inp =
     \<lparr>data = [], identifier_list = [], epub_list = [], disk = d, stdin = inp,
      csv_output = None\<rparr>"

definition new_Epub :: "filesystem \<Rightarrow> string list \<Rightarrow> outcome" where
  "new_Epub d inp =
     (case mkdir d duplicate_folder of
        Inl e \<Rightarrow> Inl (e, fresh d inp)
      | Inr d1 \<Rightarrow>
          (case mkdir d1 failed_folder of
             Inl e \<Rightarrow> Inl (e, fresh d1 inp)
           | Inr d2 \<Rightarrow>
               (case mkdir d2 processed_folder of
                  Inl e \<Rightarrow> Inl (e, fresh d2 inp)
                | Inr d3 \<Rightarrow> Inr (fresh d3 inp))))"

section \<open>Classifier\<close>

definition detect_epubs :: "Epub \<Rightarrow> Epub" where
  "detect_epubs st = st\<lparr>epub_list := rglob_epub (disk st) []\<rparr>"

text \<open>
  The loop of \<^verbatim>\<open>extract_metadata\<close>. The local variable \<^verbatim>\<open>metadata\<close> lives across the
  iterations: \<open>None\<close> while it is unbound, and after a failed read it still holds what the
  last successful read assigned.
\<close>

fun extract_loop :: "path list \<Rightarrow> Metadata option \<Rightarrow> Epub \<Rightarrow> outcome" where
  "extract_loop [] md st = Inr st"
| "extract_loop (epub # rest) md st =
     (if is_file (disk st) epub
         \<and> parent epub \<notin> set [duplicate_folder, failed_folder, processed_folder]
      then
        (case get_metadata (disk st) epub of
           Inl err \<Rightarrow>
             (let p = join failed_folder (name epub) in
              case rename (disk st) epub p of
                Inl e \<Rightarrow> Inl (e, st)
              | Inr d \<Rightarrow>
                  (case md of
                     None \<Rightarrow> Inl (UnboundLocalError, st\<lparr>disk := d\<rparr>)
                   | Some m \<Rightarrow>
                       extract_loop rest md
                         (st\<lparr>disk := d,
                             data := data st @
                               [\<lparr>is_duplicate = False, is_failed = True, metadata = m, path = p\<rparr>]\<rparr>)))
         | Inr m \<Rightarrow>
             (let st1 = st\<lparr>identifier_list := identifier_list st @ [identifier m]\<rparr>;
                  p = join processed_folder (name epub) in
              case rename (disk st1) epub p of
                Inl e \<Rightarrow> Inl (e, st1)
              | Inr d \<Rightarrow>
                  extract_loop rest (Some m)
                    (st1\<lparr>disk := d,
                         data := data st1 @
                           [\<lparr>is_duplicate = False, is_failed = False, metadata = m, path = p\<rparr>]\<rparr>)))
      else extract_loop rest md st)"

definition extract_metadata :: "Epub \<Rightarrow> outcome" where
  "extract_metadata st = extract_loop (epub_list st) None st"

section \<open>DuplicateResolver\<close>

text \<open>
  The first loop of \<^verbatim>\<open>find_duplicate_by_identifier\<close>. \<^verbatim>\<open>duplicate_list\<close> holds references
  to dictionaries of \<^verbatim>\<open>self.data\<close>, so it is a list of positions in \<open>data\<close>: for every
  element of \<^verbatim>\<open>identifier_list\<close> that occurs there more than once, the positions of all
  entries whose metadata carries that identifier.
\<close>

definition duplicate_list :: "Epub \<Rightarrow> nat list" where
  "duplicate_list st =
     concat (map (\<lambda>i. if count_list (identifier_list st) i > 1
                        then filter (\<lambda>k. identifier (metadata (data st ! k)) = i)
                               [0..<length (data st)]
                        else [])
               (identifier_list st))"

text \<open>
  The second loop: mark, move, record the new path. (The positions come from
  \<open>duplicate_list\<close> and lie inside \<open>data\<close>.)
\<close>

fun move_duplicates :: "nat list \<Rightarrow> Epub \<Rightarrow> outcome" where
  "move_duplicates [] st = Inr st"
| "move_duplicates (k # ks) st =
     (let st1 = st\<lparr>data := (data st)[k := (data st ! k)\<lparr>is_duplicate := True\<rparr>]\<rparr>;
          p = join duplicate_folder (name (path (data st1 ! k)))
      in case rename (disk st1) (path (data st1 ! k)) p of
           Inl e \<Rightarrow> Inl (e, st1)
         | Inr d \<Rightarrow>
             move_duplicates ks
               (st1\<lparr>disk := d, data := (data st1)[k := (data st1 ! k)\<lparr>path := p\<rparr>]\<rparr>))"

definition find_duplicate_by_identifier :: "Epub \<Rightarrow> outcome" where
  "find_duplicate_by_identifier st = move_duplicates (duplicate_list st) st"

section \<open>Catalog update\<close>

text \<open>
  The loop of \<^verbatim>\<open>update_data\<close> over \<^verbatim>\<open>self.data\<close>: \<open>seen\<close> are the entries already
  visited (as they are now), the list argument the entries still to visit.
\<close>

fun update_loop ::
  "string \<Rightarrow> Metadata option \<Rightarrow> path option \<Rightarrow> entry list \<Rightarrow> entry list \<Rightarrow> filesystem
     \<Rightarrow> (error \<times> entry list \<times> filesystem) + (entry list \<times> filesystem)" where
  "update_loop i mo po seen [] d = Inr (seen, d)"
| "update_loop i mo po seen (e # es) d =
     (if i = identifier (metadata e) then
        (case (case mo of
                 None \<Rightarrow> Inr (e, d)
               | Some m \<Rightarrow>
                   (case set_metadata d (path e) m of
                      Inl err \<Rightarrow> Inl err
                    | Inr d1 \<Rightarrow> Inr (e\<lparr>metadata := m\<rparr>, d1))) of
           Inl err \<Rightarrow> Inl (err, seen @ e # es, d)
         | Inr (e1, d1) \<Rightarrow>
             update_loop i mo po
               (seen @ [case po of None \<Rightarrow> e1 | Some p \<Rightarrow> e1\<lparr>path := p\<rparr>]) es d1)
      else update_loop i mo po (seen @ [e]) es d)"

definition update_data :: "string \<Rightarrow> Metadata option \<Rightarrow> path option \<Rightarrow> Epub \<Rightarrow> outcome" where
  "update_data i mo po st =
     (case update_loop i mo po [] (data st) (disk st) of
        Inl (err, es, d) \<Rightarrow> Inl (err, st\<lparr>data := es, disk := d\<rparr>)
      | Inr (es, d) \<Rightarrow> Inr (st\<lparr>data := es, disk := d\<rparr>))"

section \<open>Curator\<close>

definition get_processed_epub :: "Epub \<Rightarrow> path list" where
  "get_processed_epub st = rglob_epub (disk st) processed_folder"

text \<open>\<^verbatim>\<open>s.strip()\<close> for blanks.\<close>

definition strip :: "string \<Rightarrow> string" where
  "strip s = rev (dropWhile (\<lambda>c. c = CHR '' '') (rev (dropWhile (\<lambda>c. c = CHR '' '') s)))"

fun split_comma :: "string \<Rightarrow> string \<Rightarrow> string list" where
  "split_comma acc [] = [rev acc]"
| "split_comma acc (c # cs) =
     (if c = CHR '','' then rev acc # split_comma [] cs else split_comma (c # acc) cs)"

text \<open>
  Modelled from the spec: the metadata object's \<^verbatim>\<open>set_author_list_from_string\<close> of
  \<^verbatim>\<open>ebookmeta\<close>, which is not part of the repository: the operator's line, cut at commas
  into the ordered sequence of author names.
\<close>

definition set_author_list_from_string :: "string \<Rightarrow> Metadata \<Rightarrow> Metadata" where
  "set_author_list_from_string s m =
     m\<lparr>author_list := filter (\<lambda>a. a \<noteq> []) (map strip (split_comma [] s))\<rparr>"

text \<open>
  \<^verbatim>\<open>update_authors\<close>: \<^verbatim>\<open>input()\<close> takes the next line the operator types, and raises
  \<^verbatim>\<open>EOFError\<close> when there is none.
\<close>

fun authors_loop :: "path list \<Rightarrow> Epub \<Rightarrow> outcome" where
  "authors_loop [] st = Inr st"
| "authors_loop (epub # rest) st =
     (case get_metadata (disk st) epub of
        Inl e \<Rightarrow> Inl (e, st)
      | Inr m \<Rightarrow>
          (case stdin st of
             [] \<Rightarrow> Inl (EOFError, st)
           | change_author # inp \<Rightarrow>
               if change_author \<in> set [''y'', ''Y''] then
                 (case inp of
                    [] \<Rightarrow> Inl (EOFError, st\<lparr>stdin := inp\<rparr>)
                  | nm # inp1 \<Rightarrow>
                      (let m1 = set_author_list_from_string nm m in
                       case update_data (identifier m1) (Some m1) None (st\<lparr>stdin := inp1\<rparr>) of
                         Inl x \<Rightarrow> Inl x
                       | Inr st1 \<Rightarrow> authors_loop rest st1))
               else authors_loop rest (st\<lparr>stdin := inp\<rparr>)))"

definition update_authors :: "Epub \<Rightarrow> outcome" where
  "update_authors st = authors_loop (get_processed_epub st) st"

fun title_loop :: "path list \<Rightarrow> Epub \<Rightarrow> outcome" where
  "title_loop [] st = Inr st"
| "title_loop (epub # rest) st =
     (case get_metadata (disk st) epub of
        Inl e \<Rightarrow> Inl (e, st)
      | Inr m \<Rightarrow>
          (case stdin st of
             [] \<Rightarrow> Inl (EOFError, st)
           | change_title # inp \<Rightarrow>
               if change_title \<in> set [''y'', ''Y''] then
                 (case inp of
                    [] \<Rightarrow> Inl (EOFError, st\<lparr>stdin := inp\<rparr>)
                  | t # inp1 \<Rightarrow>
                      (let m1 = m\<lparr>title := t\<rparr> in
                       case update_data (identifier m1) (Some m1) None (st\<lparr>stdin := inp1\<rparr>) of
                         Inl x \<Rightarrow> Inl x
                       | Inr st1 \<Rightarrow> title_loop rest st1))
               else title_loop rest (st\<lparr>stdin := inp\<rparr>)))"

definition update_title :: "Epub \<Rightarrow> outcome" where
  "update_title st = title_loop (get_processed_epub st) st"

section \<open>Organizer\<close>

text \<open>\<^verbatim>\<open>s.replace(',', '_').replace(' ', '_')\<close>\<close>

definition replace_char :: "char \<Rightarrow> char \<Rightarrow> string \<Rightarrow> string" where
  "replace_char a b s = map (\<lambda>c. if c = a then b else c) s"

definition sanitize :: "string \<Rightarrow> string" where
  "sanitize s = replace_char CHR '' '' CHR ''_'' (replace_char CHR '','' CHR ''_'' s)"

text \<open>The name \<^verbatim>\<open>rename_file\<close> builds: \<^verbatim>\<open>f"{sanitized title}.{epub.suffix}"\<close>.\<close>

definition new_name :: "string \<Rightarrow> path \<Rightarrow> string" where
  "new_name t epub = sanitize t @ ''.'' @ path_suffix epub"

fun rename_loop :: "path list \<Rightarrow> Epub \<Rightarrow> outcome" where
  "rename_loop [] st = Inr st"
| "rename_loop (epub # rest) st =
     (case get_metadata (disk st) epub of
        Inl e \<Rightarrow> Inl (e, st)
      | Inr m \<Rightarrow>
          (case rename (disk st) epub (join processed_folder (new_name (title m) epub)) of
             Inl e \<Rightarrow> Inl (e, st)
           | Inr d \<Rightarrow> rename_loop rest (st\<lparr>disk := d\<rparr>)))"

text \<open>
  The loop runs over the files that the scan of the processed folder finds when the pass
  starts: a rename puts a file at the top of that folder, whose listing has been read by
  then.
\<close>

definition rename_file :: "Epub \<Rightarrow> outcome" where
  "rename_file st = rename_loop (rglob_epub (disk st) processed_folder) st"

text \<open>\<^verbatim>\<open>"-".join(xs)\<close>\<close>

fun join_dash :: "string list \<Rightarrow> string" where
  "join_dash [] = []"
| "join_dash [a] = a"
| "join_dash (a # as) = a @ ''-'' @ join_dash as"

fun group_loop :: "path list \<Rightarrow> Epub \<Rightarrow> outcome" where
  "group_loop [] st = Inr st"
| "group_loop (epub # rest) st =
     (case get_metadata (disk st) epub of
        Inl e \<Rightarrow> Inl (e, st)
      | Inr m \<Rightarrow>
          (let author_name = sanitize (join_dash (author_list m));
               author_folder = join processed_folder author_name
           in case (if \<not> exists_path (disk st) author_folder
                    then mkdir (disk st) author_folder else Inr (disk st)) of
                Inl e \<Rightarrow> Inl (e, st)
              | Inr d1 \<Rightarrow>
                  (case rename d1 epub (join author_folder (name epub)) of
                     Inl e \<Rightarrow> Inl (e, st\<lparr>disk := d1\<rparr>)
                   | Inr d2 \<Rightarrow>
                       (case update_data (identifier m) None
                               (Some (join author_folder (name epub))) (st\<lparr>disk := d2\<rparr>) of
                          Inl x \<Rightarrow> Inl x
                        | Inr st1 \<Rightarrow> group_loop rest st1))))"

definition author_group :: "Epub \<Rightarrow> outcome" where
  "author_group st = group_loop (get_processed_epub st) st"

definition find_empty_folders :: "filesystem \<Rightarrow> path list" where
  "find_empty_folders d = filter (\<lambda>folder. is_dir d folder \<and> iterdir d folder = []) (rglob_all d [])"

fun rmdir_loop :: "path list \<Rightarrow> Epub \<Rightarrow> outcome" where
  "rmdir_loop [] st = Inr st"
| "rmdir_loop (folder # rest) st =
     (case rmdir (disk st) folder of
        Inl e \<Rightarrow> Inl (e, st)
      | Inr d \<Rightarrow> rmdir_loop rest (st\<lparr>disk := d\<rparr>))"

text \<open>
  \<^verbatim>\<open>sorted(empty_folders, reverse=True)\<close>: paths compare as the lists of their components,
  strings by their characters; the folders of one scan are distinct, so this is the
  ascending order reversed.
\<close>

definition remove_empty_folder :: "Epub \<Rightarrow> outcome" where
  "remove_empty_folder st = rmdir_loop (rev (sort (find_empty_folders (disk st)))) st"

section \<open>Reporter\<close>

definition CSV_HEADER :: "string list" where
  "CSV_HEADER = [''is_duplicate'', ''is_failed'', ''path'', ''identifier'', ''title'', ''file'', ''author'']"

text \<open>\<^verbatim>\<open>str(b)\<close> for a boolean, as the \<^verbatim>\<open>csv\<close> writer converts a cell that is not a string.\<close>

definition str_bool :: "bool \<Rightarrow> string" where
  "str_bool b = (if b then ''True'' else ''False'')"

fun join_comma_space :: "string list \<Rightarrow> string" where
  "join_comma_space [] = []"
| "join_comma_space [a] = a"
| "join_comma_space (a # as) = a @ '', '' @ join_comma_space as"

text \<open>
  Modelled from the spec: the metadata object's \<^verbatim>\<open>author_list_to_string\<close> of \<^verbatim>\<open>ebookmeta\<close>,
  which is not part of the repository: the authors joined into a single display string.
\<close>

definition author_list_to_string :: "Metadata \<Rightarrow> string" where
  "author_list_to_string m = join_comma_space (author_list m)"

text \<open>The dictionary \<^verbatim>\<open>row\<close> of one entry, its cells as the writer will print them.\<close>

definition row_of :: "entry \<Rightarrow> (string \<times> string) list" where
  "row_of e =
     [(''author'', author_list_to_string (metadata e)),
      (''file'', file (metadata e)),
      (''identifier'', identifier (metadata e)),
      (''is_duplicate'', str_bool (is_duplicate e)),
      (''is_failed'', str_bool (is_failed e)),
      (''path'', as_posix (path e)),
      (''title'', title (metadata e))]"

text \<open>
  \<^verbatim>\<open>csv.DictWriter(f, fieldnames).writerow(row)\<close>: the cells of the row in the order of the
  field names, the empty string for a missing key.
\<close>

definition writerow :: "string list \<Rightarrow> (string \<times> string) list \<Rightarrow> string list" where
  "writerow fieldnames r = map (\<lambda>k. case map_of r k of None \<Rightarrow> [] | Some v \<Rightarrow> v) fieldnames"

text \<open>
  \<^verbatim>\<open>generate_csv\<close>: the report is the header line and one record per row, each a list of
  cells (the step from cells to delimited text is the \<^verbatim>\<open>csv\<close> module's). The keys of a
  row are the seven field names, so the writer's check for unknown keys never raises.
\<close>

definition generate_csv :: "Epub \<Rightarrow> Epub" where
  "generate_csv st =
     st\<lparr>csv_output :=
          Some (sort CSV_HEADER, map (writerow (sort CSV_HEADER)) (map row_of (data st)))\<rparr>"

section \<open>The pipeline\<close>

text \<open>
  \<^verbatim>\<open>get_summary\<close> prints four counts; the last one lists the processed folder, which
  raises when that folder is gone.
\<close>

definition get_summary :: "Epub \<Rightarrow> outcome" where
  "get_summary st =
     (if is_dir (disk st) processed_folder then Inr st else Inl (FileNotFoundError, st))"

record args =
  update :: bool
  update_author :: bool
  rename_file_flag :: bool
  update_title_flag :: bool

definition when_flag :: "bool \<Rightarrow> (Epub \<Rightarrow> outcome) \<Rightarrow> Epub \<Rightarrow> outcome" where
  "when_flag b stage st = (if b then stage st else Inr st)"

text \<open>Sequencing: an exception ends the run.\<close>

definition and_then :: "outcome \<Rightarrow> (Epub \<Rightarrow> outcome) \<Rightarrow> outcome" where
  "and_then r stage = (case r of Inl x \<Rightarrow> Inl x | Inr st \<Rightarrow> stage st)"

text \<open>
  \<^verbatim>\<open>main\<close>, given the parsed arguments, the file system below the working directory and the
  operator's input.
\<close>

definition main :: "args \<Rightarrow> filesystem \<Rightarrow> string list \<Rightarrow> outcome" where
  "main a d inp =
     and_then (new_Epub d inp) (\<lambda>instance.
       let st = detect_epubs instance in
       if epub_list st \<noteq> [] then
         and_then (and_then (and_then (and_then (and_then (and_then (and_then (and_then
           (extract_metadata st)
           find_duplicate_by_identifier)
           (when_flag (update a \<or> update_author a) update_authors))
           (when_flag (update a \<or> update_title_flag a) update_title))
           (when_flag (update a \<or> rename_file_flag a) rename_file))
           author_group)
           (\<lambda>s. Inr (generate_csv s)))
           remove_empty_folder)
           get_summary
       else Inr st)"

section \<open>Example inputs\<close>

definition book1 :: Metadata where
  "book1 = \<lparr>identifier = ''ISBN-123'', title = ''My, Book'', author_list = [''Ann Lee''],
            file = []\<rparr>"

definition book2 :: Metadata where
  "book2 = \<lparr>identifier = ''ISBN-999'', title = ''Other'', author_list = [''Bo''], file = []\<rparr>"

definition no_flags :: args where
  "no_flags = \<lparr>update = False, update_author = False, rename_file_flag = False,
               update_title_flag = False\<rparr>"

text \<open>The three managed folders, as \<^verbatim>\<open>__post_init__\<close> leaves them in an empty directory.\<close>

definition managed :: filesystem where
  "managed = [([''[duplicates]''], Dir), ([''[failed]''], Dir), ([''[processed]''], Dir)]"



text \<open>A file in a nested folder, and the same directory once the file has been moved out.\<close>

definition nested :: filesystem where
  "nested = [([''a''], Dir), ([''a'', ''b''], Dir), ([''a'', ''b'', ''x.epub''], File (Some book1))]"

definition nested_moved :: filesystem where
  "nested_moved = [([''a''], Dir), ([''a'', ''b''], Dir), ([''[processed]''], Dir),
                   ([''[processed]'', ''x.epub''], File (Some book1))]"

section \<open>Properties of a catalog update\<close>

text \<open>
  What one update does to an entry it applies to: the supplied metadata replaces the
  recorded one, the supplied path replaces the recorded location.
\<close>

definition replaced :: "Metadata option \<Rightarrow> path option \<Rightarrow> entry \<Rightarrow> entry" where
  "replaced mo po e =
     (let e1 = (case mo of None \<Rightarrow> e | Some m \<Rightarrow> e\<lparr>metadata := m\<rparr>)
      in case po of None \<Rightarrow> e1 | Some p \<Rightarrow> e1\<lparr>path := p\<rparr>)"

text \<open>The file at \<open>p\<close> holds the title and the authors of \<open>m\<close>.\<close>

definition written :: "filesystem \<Rightarrow> path \<Rightarrow> Metadata \<Rightarrow> bool" where
  "written d p m =
     (case map_of d p of
        Some (File (Some c)) \<Rightarrow> title c = title m \<and> author_list c = author_list m
      | _ \<Rightarrow> False)"

text \<open>Two copies of one book in the duplicates folder and a different book, catalogued.\<close>

definition shelf :: Epub where
  "shelf =
     \<lparr>data =
        [\<lparr>is_duplicate = True, is_failed = False, metadata = book1\<lparr>file := ''c1.epub''\<rparr>,
          path = [''[duplicates]'', ''c1.epub'']\<rparr>,
         \<lparr>is_duplicate = False, is_failed = False, metadata = book2\<lparr>file := ''h.epub''\<rparr>,
          path = [''[processed]'', ''h.epub'']\<rparr>,
         \<lparr>is_duplicate = True, is_failed = False, metadata = book1\<lparr>file := ''c2.epub''\<rparr>,
          path = [''[duplicates]'', ''c2.epub'']\<rparr>],
      identifier_list = [''ISBN-123'', ''ISBN-999'', ''ISBN-123''],
      epub_list = [[''c1.epub''], [''h.epub''], [''c2.epub'']],
      disk = managed @ [([''[duplicates]'', ''c1.epub''], File (Some book1)),
                        ([''[processed]'', ''h.epub''], File (Some book2)),
                        ([''[duplicates]'', ''c2.epub''], File (Some book1))],
      stdin = [], csv_output = None\<rparr>"

definition revised :: Metadata where
  "revised = book1\<lparr>title := ''Revised'', author_list := [''Ann Lee'', ''Cy'']\<rparr>"

definition regrouped :: path where
  "regrouped = [''[processed]'', ''Ann_Lee'', ''z.epub'']"

text \<open>
  The catalog after the Classifier has seen \<^verbatim>\<open>g.epub\<close> and then \<^verbatim>\<open>bad.epub\<close>, which cannot
  be decoded; the operator is about to change the authors.
\<close>

definition stale :: Epub where
  "stale =
     \<lparr>data =
        [\<lparr>is_duplicate = False, is_failed = False, metadata = book1\<lparr>file := ''g.epub''\<rparr>,
          path = [''[processed]'', ''g.epub'']\<rparr>,
         \<lparr>is_duplicate = False, is_failed = True, metadata = book1\<lparr>file := ''g.epub''\<rparr>,
          path = [''[failed]'', ''bad.epub'']\<rparr>],
      identifier_list = [''ISBN-123''],
      epub_list = [[''g.epub''], [''bad.epub'']],
      disk = managed @ [([''[processed]'', ''g.epub''], File (Some book1)),
                        ([''[failed]'', ''bad.epub''], File None)],
      stdin = [''y'', ''New Author''], csv_output = None\<rparr>"

section \<open>Path and state of a catalog entry\<close>

text \<open>A string that the \<^verbatim>\<open>/\<close> operator takes as one component: a proper file name.\<close>

definition valid_name :: "string \<Rightarrow> bool" where
  "valid_name n = (parts n = [n])"

text \<open>The folder that the flags of an entry imply.\<close>

definition folder_of :: "entry \<Rightarrow> path" where
  "folder_of e =
     (if is_duplicate e then duplicate_folder
      else if is_failed e then failed_folder else processed_folder)"

text \<open>The recorded location names a file directly inside that folder.\<close>

definition located :: "entry \<Rightarrow> bool" where
  "located e = (path e \<noteq> [] \<and> parent (path e) = folder_of e \<and> valid_name (name (path e)))"

definition catalog_ok :: "Epub \<Rightarrow> bool" where
  "catalog_ok st = list_all located (data st)"


text \<open>Every entry marked as duplicate has a regular file at its recorded location.\<close>

definition duplicates_exist :: "Epub \<Rightarrow> bool" where
  "duplicates_exist st =
     list_all (\<lambda>e. is_duplicate e \<longrightarrow> is_file (disk st) (path e)) (data st)"




text \<open>Two copies of one book, and between them a file that cannot be decoded.\<close>

definition copies_and_bad :: filesystem where
  "copies_and_bad = [([''a.epub''], File (Some book1)), ([''bad.epub''], File None),
                     ([''b.epub''], File (Some book1))]"

section \<open>Properties of the report\<close>

text \<open>The state in which a method ends, by returning or by raising.\<close>

definition state_of :: "outcome \<Rightarrow> Epub" where
  "state_of r = (case r of Inl (err, st) \<Rightarrow> st | Inr st \<Rightarrow> st)"




section \<open>Properties of the rename pass\<close>







section \<open>Classifier: a file that cannot be decoded\<close>

lemma new_Epub_empty: "new_Epub [] inp = Inr (fresh managed inp)"
  by code_simp

text \<open>
  In the \<^verbatim>\<open>except\<close> branch the variable \<^verbatim>\<open>metadata\<close> was not assigned by this iteration.
  When no earlier file was decoded it is unbound, and building the catalog entry raises:
  the file is already in the failed folder, no entry is recorded, the loop is over.
\<close>

lemma extract_loop_unbound_metadata:
  assumes "is_file (disk st) epub"
    and "parent epub \<notin> set [duplicate_folder, failed_folder, processed_folder]"
    and "get_metadata (disk st) epub = Inl err"
    and "rename (disk st) epub (join failed_folder (name epub)) = Inr d"
  shows "extract_loop (epub # rest) None st = Inl (UnboundLocalError, st\<lparr>disk := d\<rparr>)"
  using assms by simp

text \<open>
  When an earlier file was decoded, the failure is contained: the file goes to the failed
  folder, a Failed entry is recorded and the loop goes on. The entry holds the metadata
  object of that earlier file.
\<close>

lemma extract_loop_later_failure:
  assumes "is_file (disk st) epub"
    and "parent epub \<notin> set [duplicate_folder, failed_folder, processed_folder]"
    and "get_metadata (disk st) epub = Inl err"
    and "rename (disk st) epub (join failed_folder (name epub)) = Inr d"
  shows "extract_loop (epub # rest) (Some m) st =
         extract_loop rest (Some m)
           (st\<lparr>disk := d,
               data := data st @
                 [\<lparr>is_duplicate = False, is_failed = True, metadata = m,
                   path = join failed_folder (name epub)\<rparr>]\<rparr>)"
  using assms by simp

text \<open>
  Claim C4 (decode failure containment): a file whose metadata cannot be extracted is
  moved to the failed folder, gets a Failed catalog entry, and the remaining files are
  still processed, wherever the failing file stands, the very first position included.

  The code at the failing input: the scan finds \<^verbatim>\<open>bad.epub\<close>, which cannot be decoded,
  before \<^verbatim>\<open>good.epub\<close>. The run ends with \<^verbatim>\<open>UnboundLocalError\<close>: \<^verbatim>\<open>bad.epub\<close> has been moved,
  the catalog is empty, and \<^verbatim>\<open>good.epub\<close> was never looked at.
\<close>

theorem extract_metadata_first_file_undecodable:
  "and_then (new_Epub [([''bad.epub''], File None), ([''good.epub''], File (Some book1))] [])
     (\<lambda>s. extract_metadata (detect_epubs s)) =
   Inl (UnboundLocalError,
        \<lparr>data = [], identifier_list = [],
         epub_list = [[''bad.epub''], [''good.epub'']],
         disk = [([''good.epub''], File (Some book1))] @ managed @
                [([''[failed]'', ''bad.epub''], File None)],
         stdin = [], csv_output = None\<rparr>)"
  by code_simp

text \<open>
  Claim C5 (failed report rows are empty): the report row of a file that failed decoding
  has \<^verbatim>\<open>is_failed\<close> set and empty identifier, title and author, never values of another
  file.

  The code at the failing input: \<^verbatim>\<open>good.epub\<close> is decoded, then \<^verbatim>\<open>bad.epub\<close> fails. The
  entry of \<^verbatim>\<open>bad.epub\<close> holds the metadata object of \<^verbatim>\<open>good.epub\<close>; its row (the second)
  shows the author, file, identifier and title of \<^verbatim>\<open>good.epub\<close>, and after grouping even
  its path.
\<close>

theorem failed_row_shows_previous_metadata:
  "(case main no_flags [([''good.epub''], File (Some book1)), ([''bad.epub''], File None)] [] of
      Inl x \<Rightarrow> None
    | Inr st \<Rightarrow> csv_output st) =
   Some ([''author'', ''file'', ''identifier'', ''is_duplicate'', ''is_failed'', ''path'', ''title''],
         [[''Ann Lee'', ''good.epub'', ''ISBN-123'', ''False'', ''False'',
           ''[processed]/Ann_Lee/good.epub'', ''My, Book''],
          [''Ann Lee'', ''good.epub'', ''ISBN-123'', ''False'', ''True'',
           ''[processed]/Ann_Lee/good.epub'', ''My, Book'']])"
  by code_simp

section \<open>Reporter: the shape of the report\<close>



lemma state_of_simps [simp]: "state_of (Inl (e, st)) = st" "state_of (Inr st) = st"
  by (simp_all add: state_of_def)















section \<open>Classifier: running it again\<close>





section \<open>Organizer: the rename pass\<close>














section \<open>Organizer: removing empty folders\<close>

lemma iterdir_empty_iff: "iterdir d p = [] \<longleftrightarrow> (\<forall>q\<in>fst ` set d. q = [] \<or> parent q \<noteq> p)"
  by (auto simp: iterdir_def filter_empty_conv)

lemma iterdir_delete_empty: "iterdir d p = [] \<Longrightarrow> iterdir (AList.delete f d) p = []"
  by (auto simp: iterdir_empty_iff AList.delete_eq)

lemma rmdir_empty_dir:
  "map_of d f = Some Dir \<Longrightarrow> iterdir d f = [] \<Longrightarrow> rmdir d f = Inr (AList.delete f d)"
  by (simp add: rmdir_def)

lemma rmdir_loop_empty_dirs:
  assumes "distinct ds" and "\<forall>f\<in>set ds. map_of (disk st) f = Some Dir \<and> iterdir (disk st) f = []"
  shows "rmdir_loop ds st = Inr (st\<lparr>disk := filter (\<lambda>(p, n). p \<notin> set ds) (disk st)\<rparr>)"
  using assms
proof (induction ds arbitrary: st)
  case Nil
  then show ?case by simp
next
  case (Cons f ds)
  let ?st1 = "st\<lparr>disk := AList.delete f (disk st)\<rparr>"
  have step: "rmdir (disk st) f = Inr (AList.delete f (disk st))"
    using Cons.prems by (simp add: rmdir_empty_dir)
  have rest: "\<forall>g\<in>set ds. map_of (disk ?st1) g = Some Dir \<and> iterdir (disk ?st1) g = []"
    using Cons.prems by (auto simp: delete_conv' iterdir_delete_empty)
  have "rmdir_loop ds ?st1 = Inr (?st1\<lparr>disk := filter (\<lambda>(p, n). p \<notin> set ds) (disk ?st1)\<rparr>)"
    using Cons.IH [of ?st1] Cons.prems(1) rest by simp
  moreover have "filter (\<lambda>(p, n). p \<notin> set ds) (AList.delete f (disk st)) =
                 filter (\<lambda>(p, n). p \<notin> set (f # ds)) (disk st)"
    by (auto simp: AList.delete_eq intro: filter_cong)
  ultimately show ?case using step by simp
qed

lemma set_find_empty_folders:
  "set (find_empty_folders d) = {p. p \<noteq> [] \<and> map_of d p = Some Dir \<and> iterdir d p = []}"
  by (auto simp: find_empty_folders_def rglob_all_def is_dir_def weak_map_of_SomeI strict_prefix_def
           dest: map_of_SomeD intro: rev_image_eqI)

lemma distinct_find_empty_folders:
  "distinct (map fst d) \<Longrightarrow> distinct (find_empty_folders d)"
  by (simp add: find_empty_folders_def rglob_all_def)

text \<open>
  What the cleanup does, on a file system in which a path names one node: it always
  completes, and it removes the directories that have zero entries at the time of its
  single scan and nothing else. No directory of that list is the parent of another, so
  the order of the removals has no effect.
\<close>

lemma remove_empty_folder_scanned_once:
  assumes "distinct (map fst (disk st))"
  shows "remove_empty_folder st =
           Inr (st\<lparr>disk := filter (\<lambda>(p, n). \<not> (p \<noteq> [] \<and> n = Dir \<and> iterdir (disk st) p = []))
                              (disk st)\<rparr>)"
proof -
  let ?ds = "rev (sort (find_empty_folders (disk st)))"
  have dist: "distinct ?ds"
    using assms by (simp add: distinct_find_empty_folders)
  have set_ds: "set ?ds = {p. p \<noteq> [] \<and> map_of (disk st) p = Some Dir \<and> iterdir (disk st) p = []}"
    by (simp add: set_find_empty_folders)
  have "rmdir_loop ?ds st = Inr (st\<lparr>disk := filter (\<lambda>(p, n). p \<notin> set ?ds) (disk st)\<rparr>)"
    by (rule rmdir_loop_empty_dirs [OF dist]) (simp add: set_find_empty_folders)
  moreover have "filter (\<lambda>(p, n). p \<notin> set ?ds) (disk st) =
      filter (\<lambda>(p, n). \<not> (p \<noteq> [] \<and> n = Dir \<and> iterdir (disk st) p = [])) (disk st)"
  proof (rule filter_cong [OF refl])
    fix x assume x: "x \<in> set (disk st)"
    obtain p n where pn: "x = (p, n)" by (cases x)
    with x assms have "map_of (disk st) p = Some n" by simp
    then show "(case x of (p, n) \<Rightarrow> p \<notin> set ?ds) =
               (case x of (p, n) \<Rightarrow> \<not> (p \<noteq> [] \<and> n = Dir \<and> iterdir (disk st) p = []))"
      unfolding set_ds pn by auto
  qed
  ultimately show ?thesis by (simp add: remove_empty_folder_def)
qed

lemma remove_empty_folder_scanned_once_example:
  "distinct (map fst (disk (fresh nested_moved [])))
   \<and> remove_empty_folder (fresh nested_moved []) =
       Inr (fresh [([''a''], Dir), ([''[processed]''], Dir),
                   ([''[processed]'', ''x.epub''], File (Some book1))] [])"
proof -
  have a: "distinct (map fst (disk (fresh nested_moved [])))"
    by code_simp
  have b: "(fresh nested_moved [])\<lparr>disk :=
              filter (\<lambda>(p, n). \<not> (p \<noteq> [] \<and> n = Dir \<and> iterdir (disk (fresh nested_moved [])) p = []))
                (disk (fresh nested_moved []))\<rparr> =
           fresh [([''a''], Dir), ([''[processed]''], Dir),
                  ([''[processed]'', ''x.epub''], File (Some book1))] []"
    by code_simp
  from remove_empty_folder_scanned_once [OF a] a b show ?thesis by simp
qed

text \<open>
  Claim C8 (empty-folder cleanup): after grouping, every directory under the working root
  that is left with zero entries is removed, deepest first, so that a parent which
  becomes empty only through the removal of its child is detected and removed too.

  The code at the failing input: \<^verbatim>\<open>a/b/x.epub\<close> is the only file. The cleanup sorts its list
  in reverse, child before parent, but the list was computed once, before any removal,
  when \<^verbatim>\<open>a\<close> still held \<^verbatim>\<open>a/b\<close>. So \<^verbatim>\<open>a/b\<close> is removed and \<^verbatim>\<open>a\<close> stays: when the run is
  over it is a directory with zero entries, the only one that a new scan would list.
\<close>

theorem remove_empty_folder_leaves_parent:
  "(case main no_flags nested [] of
      Inl x \<Rightarrow> None
    | Inr st \<Rightarrow> Some (disk st, is_dir (disk st) [''a''], iterdir (disk st) [''a''],
                     find_empty_folders (disk st))) =
   Some ([([''a''], Dir), ([''[processed]''], Dir), ([''[processed]'', ''Ann_Lee''], Dir),
          ([''[processed]'', ''Ann_Lee'', ''x.epub''], File (Some book1))],
         True, [], [[''a'']])"
  by code_simp

section \<open>Catalog update: every entry with the identifier\<close>

lemma update_loop_data:
  "update_loop i mo po seen es d = Inr (es', d') \<Longrightarrow>
   es' = seen @ map (\<lambda>e. if identifier (metadata e) = i then replaced mo po e else e) es"
proof (induction es arbitrary: seen d)
  case Nil
  then show ?case by simp
next
  case (Cons e es)
  show ?case
  proof (cases "i = identifier (metadata e)")
    case False
    with Cons.prems have "update_loop i mo po (seen @ [e]) es d = Inr (es', d')"
      by simp
    from Cons.IH [OF this] False show ?thesis by auto
  next
    case True
    with Cons.prems obtain d1 where
      "update_loop i mo po (seen @ [replaced mo po e]) es d1 = Inr (es', d')"
      by (auto simp: replaced_def split: sum.splits option.splits)
    from Cons.IH [OF this] True show ?thesis by simp
  qed
qed

lemma update_loop_no_metadata:
  "\<exists>es'. update_loop i None po seen es d = Inr (es', d)"
  by (induction es arbitrary: seen) auto

lemma set_metadata_written:
  assumes "set_metadata d p m = Inr d'"
  shows "written d' p m" and "written d q m \<Longrightarrow> written d' q m"
  using assms
  by (auto simp: set_metadata_def written_def update_conv'
           split: option.splits node.splits if_splits)

lemma update_loop_written:
  "update_loop i (Some m) po seen es d = Inr (es', d') \<Longrightarrow>
   (\<forall>q. written d q m \<longrightarrow> written d' q m)
   \<and> (\<forall>e\<in>set es. identifier (metadata e) = i \<longrightarrow> written d' (path e) m)"
proof (induction es arbitrary: seen d)
  case Nil
  then show ?case by simp
next
  case (Cons e es)
  show ?case
  proof (cases "i = identifier (metadata e)")
    case False
    with Cons show ?thesis by auto
  next
    case True
    with Cons.prems obtain d1 where d1: "set_metadata d (path e) m = Inr d1"
      and rest: "update_loop i (Some m) po
                   (seen @ [case po of None \<Rightarrow> e\<lparr>metadata := m\<rparr>
                            | Some p \<Rightarrow> e\<lparr>metadata := m, path := p\<rparr>]) es d1 = Inr (es', d')"
      by (auto split: sum.splits)
    from Cons.IH [OF rest] set_metadata_written [OF d1] True show ?thesis by auto
  qed
qed

text \<open>
  Claim C10 (an update addressed by identifier reaches every matching entry): one call of
  \<^verbatim>\<open>update_data\<close> is applied to every entry whose recorded identifier equals the given
  one. For each of them the supplied metadata is written to that entry's own file and
  replaces the in-memory record, and the supplied path replaces the recorded location.
  Entries with another identifier are left as they are. Without metadata nothing is
  written and the call cannot fail.
\<close>

theorem update_data_every_matching_entry:
  "(\<exists>s. update_data i None po st = Inr s \<and> disk s = disk st)
   \<and> (update_data i mo po st = Inr st' \<longrightarrow>
        data st' = map (\<lambda>e. if identifier (metadata e) = i then replaced mo po e else e) (data st)
        \<and> (\<forall>m. mo = Some m \<longrightarrow>
              (\<forall>e\<in>set (data st). identifier (metadata e) = i \<longrightarrow> written (disk st') (path e) m)))"
proof (intro conjI impI allI)
  from update_loop_no_metadata [of i po "[]" "data st" "disk st"]
  show "\<exists>s. update_data i None po st = Inr s \<and> disk s = disk st"
    by (auto simp: update_data_def)
next
  assume "update_data i mo po st = Inr st'"
  then obtain es d where *: "update_loop i mo po [] (data st) (disk st) = Inr (es, d)"
    and st': "st' = st\<lparr>data := es, disk := d\<rparr>"
    by (auto simp: update_data_def split: sum.splits)
  from update_loop_data [OF *] st'
  show "data st' = map (\<lambda>e. if identifier (metadata e) = i then replaced mo po e else e) (data st)"
    by simp
  fix m assume "mo = Some m"
  with * update_loop_written [of i m po "[]" "data st" "disk st" es d] st'
  show "\<forall>e\<in>set (data st). identifier (metadata e) = i \<longrightarrow> written (disk st') (path e) m"
    by simp
qed


theorem update_data_every_matching_entry_witness:
  "\<exists>s. update_data ''ISBN-123'' (Some revised) (Some regrouped) shelf = Inr s
       \<and> map path (data s) = [regrouped, [''[processed]'', ''h.epub''], regrouped]
       \<and> map (title \<circ> metadata) (data s) = [''Revised'', ''Other'', ''Revised'']
       \<and> written (disk s) [''[duplicates]'', ''c1.epub''] revised
       \<and> written (disk s) [''[duplicates]'', ''c2.epub''] revised"
proof -
  have "case update_data ''ISBN-123'' (Some revised) (Some regrouped) shelf of
          Inl x \<Rightarrow> False | Inr s \<Rightarrow> True"
    by code_simp
  then obtain s where s: "update_data ''ISBN-123'' (Some revised) (Some regrouped) shelf = Inr s"
    by (auto split: sum.splits)
  from update_data_every_matching_entry
         [of "''ISBN-123''" "Some regrouped" shelf "Some revised" s] s
  have d: "data s = map (\<lambda>e. if identifier (metadata e) = ''ISBN-123''
                              then replaced (Some revised) (Some regrouped) e else e) (data shelf)"
    and w: "\<forall>e\<in>set (data shelf). identifier (metadata e) = ''ISBN-123'' \<longrightarrow>
              written (disk s) (path e) revised"
    by blast+
  have "map path (map (\<lambda>e. if identifier (metadata e) = ''ISBN-123''
                              then replaced (Some revised) (Some regrouped) e else e) (data shelf))
        = [regrouped, [''[processed]'', ''h.epub''], regrouped]"
    by code_simp
  moreover have "map (title \<circ> metadata) (map (\<lambda>e. if identifier (metadata e) = ''ISBN-123''
                              then replaced (Some revised) (Some regrouped) e else e) (data shelf))
        = [''Revised'', ''Other'', ''Revised'']"
    by code_simp
  moreover have "written (disk s) [''[duplicates]'', ''c1.epub''] revised"
    using w by (simp add: shelf_def book1_def)
  moreover have "written (disk s) [''[duplicates]'', ''c2.epub''] revised"
    using w by (simp add: shelf_def book1_def)
  ultimately show ?thesis using s d by auto
qed

section \<open>Catalog update: a write that fails\<close>

lemma stale_reached:
  "and_then (new_Epub [([''g.epub''], File (Some book1)), ([''bad.epub''], File None)]
               [''y'', ''New Author''])
     (\<lambda>s. extract_metadata (detect_epubs s)) = Inr stale"
  by code_simp










section \<open>Path and state stay consistent\<close>

subsection \<open>Classifier\<close>

lemma join_valid_name: "valid_name n \<Longrightarrow> join p n = p @ [n]"
  by (simp add: join_def valid_name_def)




lemma rename_is_file:
  assumes "rename d src dst = Inr d'"
  shows "is_file d' dst" and "is_file d q \<Longrightarrow> q \<noteq> src \<or> dst = src \<Longrightarrow> is_file d' q"
  using assms
  by (auto simp: rename_def is_file_def update_conv' delete_conv'
           split: option.splits node.splits if_splits)



subsection \<open>DuplicateResolver\<close>

lemma located_path:
  assumes "located e"
  shows "path e = folder_of e @ [name (path e)]"
proof -
  from assms have "path e \<noteq> []" and "butlast (path e) = folder_of e"
    by (simp_all add: located_def parent_def)
  with append_butlast_last_id [of "path e"] show ?thesis
    by (simp add: name_def)
qed

lemma duplicate_list_bound: "\<forall>k\<in>set (duplicate_list st). k < length (data st)"
  by (auto simp: duplicate_list_def)

lemma move_duplicates_invariant:
  "move_duplicates ks st = Inr st' \<Longrightarrow> catalog_ok st \<Longrightarrow>
   \<forall>k\<in>set ks. k < length (data st) \<Longrightarrow>
   catalog_ok st' \<and> (duplicates_exist st \<longrightarrow> duplicates_exist st')"
proof (induction ks arbitrary: st)
  case Nil
  then show ?case by simp
next
  case (Cons k ks)
  let ?e = "data st ! k"
  let ?p = "join duplicate_folder (name (path ?e))"
  let ?e' = "?e\<lparr>is_duplicate := True, path := ?p\<rparr>"
  from Cons.prems(3) have k: "k < length (data st)" by simp
  with Cons.prems(2) have le: "located ?e"
    by (simp add: catalog_ok_def list_all_length)
  then have vn: "valid_name (name (path ?e))" by (simp add: located_def)
  then have p: "?p = duplicate_folder @ [name (path ?e)]" by (rule join_valid_name)
  from Cons.prems(1) k obtain d where
    d: "rename (disk st) (path ?e) ?p = Inr d"
    and rest: "move_duplicates ks (st\<lparr>disk := d, data := (data st)[k := ?e']\<rparr>) = Inr st'"
    by (auto simp: Let_def split: sum.splits)
  let ?st1 = "st\<lparr>disk := d, data := (data st)[k := ?e']\<rparr>"
  have le': "located ?e'"
    using vn p by (simp add: located_def folder_of_def parent_def name_def)
  have c: "catalog_ok ?st1"
    using Cons.prems(2) le' k
    by (auto simp: catalog_ok_def list_all_length nth_list_update)
  have b: "\<forall>k\<in>set ks. k < length (data ?st1)"
    using Cons.prems(3) by simp
  have e: "duplicates_exist ?st1" if ex: "duplicates_exist st"
    unfolding duplicates_exist_def list_all_length
  proof (intro allI impI)
    fix j assume j: "j < length (data ?st1)" and dup: "is_duplicate (data ?st1 ! j)"
    show "is_file (disk ?st1) (path (data ?st1 ! j))"
    proof (cases "j = k")
      case True
      with k rename_is_file(1) [OF d] show ?thesis by simp
    next
      case False
      with j dup k have dj: "is_duplicate (data st ! j)" and jl: "j < length (data st)"
        by simp_all
      with ex have fj: "is_file (disk st) (path (data st ! j))"
        by (simp add: duplicates_exist_def list_all_length)
      from Cons.prems(2) jl have "located (data st ! j)"
        by (simp add: catalog_ok_def list_all_length)
      from located_path [OF this] dj
      have pj: "path (data st ! j) = duplicate_folder @ [name (path (data st ! j))]"
        by (simp add: folder_of_def)
      have "path (data st ! j) \<noteq> path ?e \<or> ?p = path ?e"
        using pj p by auto
      with rename_is_file(2) [OF d fj] False k show ?thesis by simp
    qed
  qed
  from Cons.IH [OF rest c b] e show ?case by blast
qed


subsection \<open>Curator\<close>














subsection \<open>The invariant\<close>





section \<open>DuplicateResolver: completeness\<close>

lemma count_list_map_filter:
  "count_list (map f xs) i = length (filter (\<lambda>e. f e = i) xs)"
  by (induction xs) auto

lemma filter_eq_nth:
  assumes "length xs = length ys"
    and "\<And>j. j < length xs \<Longrightarrow> P (xs ! j) \<Longrightarrow> xs ! j = ys ! j"
    and "\<And>j. j < length xs \<Longrightarrow> P (ys ! j) \<Longrightarrow> xs ! j = ys ! j"
  shows "filter P xs = filter P ys"
  using assms
proof (induction xs ys rule: list_induct2)
  case Nil
  then show ?case by simp
next
  case (Cons x xs y ys)
  have h1: "P x \<Longrightarrow> x = y"
    using Cons.prems(1) [of 0] by simp
  have h2: "P y \<Longrightarrow> x = y"
    using Cons.prems(2) [of 0] by simp
  have t1: "xs ! j = ys ! j" if "j < length xs" "P (xs ! j)" for j
    using Cons.prems(1) [of "Suc j"] that by simp
  have t2: "xs ! j = ys ! j" if "j < length xs" "P (ys ! j)" for j
    using Cons.prems(2) [of "Suc j"] that by simp
  have r: "filter P xs = filter P ys"
    by (rule Cons.IH) (erule (1) t1, erule (1) t2)
  show ?case
  proof (cases "P x")
    case True
    with h1 have "x = y" by blast
    with True r show ?thesis by simp
  next
    case False
    with h2 have "\<not> P y" by blast
    with False r show ?thesis by simp
  qed
qed

lemma move_duplicates_marks:
  "move_duplicates ks st = Inr st' \<Longrightarrow> catalog_ok st \<Longrightarrow>
   \<forall>k\<in>set ks. k < length (data st) \<Longrightarrow>
   length (data st') = length (data st)
   \<and> (\<forall>j<length (data st).
         metadata (data st' ! j) = metadata (data st ! j)
         \<and> (j \<in> set ks \<longrightarrow> is_duplicate (data st' ! j))
         \<and> (j \<notin> set ks \<longrightarrow> data st' ! j = data st ! j))"
proof (induction ks arbitrary: st)
  case Nil
  then show ?case by simp
next
  case (Cons k ks)
  let ?e = "data st ! k"
  let ?p = "join duplicate_folder (name (path ?e))"
  let ?e' = "?e\<lparr>is_duplicate := True, path := ?p\<rparr>"
  from Cons.prems(3) have k: "k < length (data st)" by simp
  with Cons.prems(2) have le: "located ?e"
    by (simp add: catalog_ok_def list_all_length)
  then have vn: "valid_name (name (path ?e))" by (simp add: located_def)
  then have p: "?p = duplicate_folder @ [name (path ?e)]" by (rule join_valid_name)
  from Cons.prems(1) k obtain d where
    rest: "move_duplicates ks (st\<lparr>disk := d, data := (data st)[k := ?e']\<rparr>) = Inr st'"
    by (auto simp: Let_def split: sum.splits)
  let ?st1 = "st\<lparr>disk := d, data := (data st)[k := ?e']\<rparr>"
  have le': "located ?e'"
    using vn p by (simp add: located_def folder_of_def parent_def name_def)
  have c: "catalog_ok ?st1"
    using Cons.prems(2) le' k
    by (auto simp: catalog_ok_def list_all_length nth_list_update)
  have b: "\<forall>k\<in>set ks. k < length (data ?st1)"
    using Cons.prems(3) by simp
  from Cons.IH [OF rest c b]
  have len: "length (data st') = length (data st)"
    and ih: "\<And>j. j < length (data st) \<Longrightarrow>
         metadata (data st' ! j) = metadata (data ?st1 ! j)
         \<and> (j \<in> set ks \<longrightarrow> is_duplicate (data st' ! j))
         \<and> (j \<notin> set ks \<longrightarrow> data st' ! j = data ?st1 ! j)"
    by simp_all
  show ?case
  proof (intro conjI allI impI)
    show "length (data st') = length (data st)" by (rule len)
  next
    fix j assume j: "j < length (data st)"
    from ih [OF j] j k show "metadata (data st' ! j) = metadata (data st ! j)"
      by (cases "j = k") simp_all
  next
    fix j assume j: "j < length (data st)" and m: "j \<in> set (k # ks)"
    from ih [OF j] j k m show "is_duplicate (data st' ! j)"
      by (cases "j \<in> set ks") auto
  next
    fix j assume j: "j < length (data st)" and m: "j \<notin> set (k # ks)"
    from ih [OF j] j k m show "data st' ! j = data st ! j"
      by simp
  qed
qed

lemma duplicate_list_member:
  assumes "1 < count_list (identifier_list st) i" and "j < length (data st)"
    and "identifier (metadata (data st ! j)) = i"
  shows "j \<in> set (duplicate_list st)"
proof -
  from assms(1) have "i \<in> set (identifier_list st)"
    by (metis count_list_0_iff not_less_zero)
  with assms show ?thesis
    by (auto simp: duplicate_list_def intro!: bexI [of _ i])
qed

lemma duplicate_list_only:
  assumes "j \<in> set (duplicate_list st)"
  shows "1 < count_list (identifier_list st) (identifier (metadata (data st ! j)))"
  using assms by (auto simp: duplicate_list_def split: if_splits)

lemma extract_loop_identifier_list:
  "extract_loop ps md st = Inr st' \<Longrightarrow>
   identifier_list st =
     map (\<lambda>e. identifier (metadata e)) (filter (\<lambda>e. \<not> is_failed e) (data st)) \<Longrightarrow>
   identifier_list st' =
     map (\<lambda>e. identifier (metadata e)) (filter (\<lambda>e. \<not> is_failed e) (data st'))"
proof (induction ps arbitrary: md st)
  case Nil
  then show ?case by simp
next
  case (Cons epub rest)
  show ?case
  proof (cases "is_file (disk st) epub
         \<and> parent epub \<notin> set [duplicate_folder, failed_folder, processed_folder]")
    case False
    with Cons.prems(1) have "extract_loop rest md st = Inr st'"
      by (simp del: set_simps)
    from Cons.IH [OF this Cons.prems(2)] show ?thesis .
  next
    case True
    show ?thesis
    proof (cases "get_metadata (disk st) epub")
      case (Inl err)
      with True Cons.prems(1) obtain d m where
        rest: "extract_loop rest md
                     (st\<lparr>disk := d, data := data st @
                        [\<lparr>is_duplicate = False, is_failed = True, metadata = m,
                          path = join failed_folder (name epub)\<rparr>]\<rparr>) = Inr st'"
        by (auto simp del: set_simps simp: Let_def split: sum.splits option.splits)
      show ?thesis
        by (rule Cons.IH [OF rest]) (simp add: Cons.prems(2))
    next
      case (Inr m)
      with True Cons.prems(1) obtain d where
        rest: "extract_loop rest (Some m)
                     (st\<lparr>identifier_list := identifier_list st @ [identifier m],
                         disk := d, data := data st @
                        [\<lparr>is_duplicate = False, is_failed = False, metadata = m,
                          path = join processed_folder (name epub)\<rparr>]\<rparr>) = Inr st'"
        by (auto simp del: set_simps simp: Let_def split: sum.splits option.splits)
      show ?thesis
        by (rule Cons.IH [OF rest]) (simp add: Cons.prems(2))
    qed
  qed
qed

lemma duplicate_completeness_when_not_inherited:
  assumes ok: "catalog_ok st"
    and ids: "identifier_list st =
                map (\<lambda>e. identifier (metadata e)) (filter (\<lambda>e. \<not> is_failed e) (data st))"
    and run: "find_duplicate_by_identifier st = Inr st'"
  shows "(1 < count_list (identifier_list st) i
            \<and> list_all (\<lambda>e. is_failed e \<longrightarrow> identifier (metadata e) \<noteq> i) (data st) \<longrightarrow>
            length (filter (\<lambda>e. identifier (metadata e) = i \<and> is_duplicate e
                                 \<and> parent (path e) = duplicate_folder) (data st'))
              = count_list (identifier_list st) i
            \<and> list_all (\<lambda>e. identifier (metadata e) = i \<longrightarrow> is_duplicate e) (data st'))
       \<and> (count_list (identifier_list st) i = 1 \<longrightarrow>
            filter (\<lambda>e. identifier (metadata e) = i) (data st')
              = filter (\<lambda>e. identifier (metadata e) = i) (data st))"
proof -
  from run have m: "move_duplicates (duplicate_list st) st = Inr st'"
    by (simp add: find_duplicate_by_identifier_def)
  from move_duplicates_marks [OF m ok duplicate_list_bound]
  have len: "length (data st') = length (data st)"
    and md: "\<And>j. j < length (data st) \<Longrightarrow> metadata (data st' ! j) = metadata (data st ! j)"
    and dup: "\<And>j. j < length (data st) \<Longrightarrow> j \<in> set (duplicate_list st) \<Longrightarrow>
                is_duplicate (data st' ! j)"
    and same: "\<And>j. j < length (data st) \<Longrightarrow> j \<notin> set (duplicate_list st) \<Longrightarrow>
                data st' ! j = data st ! j"
    by simp_all
  from move_duplicates_invariant [OF m ok duplicate_list_bound]
  have ok': "catalog_ok st'" by simp
  have ids': "map (\<lambda>e. identifier (metadata e)) (data st')
              = map (\<lambda>e. identifier (metadata e)) (data st)"
    by (rule nth_equalityI) (simp_all add: len md)
  show ?thesis
  proof (intro conjI impI)
    assume "1 < count_list (identifier_list st) i
            \<and> list_all (\<lambda>e. is_failed e \<longrightarrow> identifier (metadata e) \<noteq> i) (data st)"
    then have c: "1 < count_list (identifier_list st) i"
      and nf: "list_all (\<lambda>e. is_failed e \<longrightarrow> identifier (metadata e) \<noteq> i) (data st)"
      by simp_all
    have all: "identifier (metadata e) = i \<longrightarrow> is_duplicate e \<and> parent (path e) = duplicate_folder"
      if e: "e \<in> set (data st')" for e
    proof
      assume i: "identifier (metadata e) = i"
      from e obtain j where j: "j < length (data st')" "e = data st' ! j"
        by (auto simp: in_set_conv_nth)
      with i md len have "identifier (metadata (data st ! j)) = i" by simp
      from duplicate_list_member [OF c _ this] j len have "j \<in> set (duplicate_list st)"
        by simp
      with dup j len have d: "is_duplicate e" by simp
      from ok' e have "located e" by (simp add: catalog_ok_def list_all_iff)
      with d show "is_duplicate e \<and> parent (path e) = duplicate_folder"
        by (simp add: located_def folder_of_def)
    qed
    then have "filter (\<lambda>e. identifier (metadata e) = i \<and> is_duplicate e
                  \<and> parent (path e) = duplicate_folder) (data st')
               = filter (\<lambda>e. identifier (metadata e) = i) (data st')"
      by (intro filter_cong) auto
    moreover have "length (filter (\<lambda>e. identifier (metadata e) = i) (data st'))
                 = length (filter (\<lambda>e. identifier (metadata e) = i) (data st))"
      using arg_cong [OF ids', of "\<lambda>xs. count_list xs i"]
      by (simp add: count_list_map_filter)
    moreover have "filter (\<lambda>e. identifier (metadata e) = i) (filter (\<lambda>e. \<not> is_failed e) (data st))
                 = filter (\<lambda>e. identifier (metadata e) = i) (data st)"
      using nf unfolding filter_filter by (intro filter_cong) (auto simp: list_all_iff)
    then have "count_list (identifier_list st) i
                 = length (filter (\<lambda>e. identifier (metadata e) = i) (data st))"
      unfolding ids count_list_map_filter by simp
    ultimately
    show "length (filter (\<lambda>e. identifier (metadata e) = i \<and> is_duplicate e
                  \<and> parent (path e) = duplicate_folder) (data st'))
          = count_list (identifier_list st) i"
      by simp
    from all show "list_all (\<lambda>e. identifier (metadata e) = i \<longrightarrow> is_duplicate e) (data st')"
      by (simp add: list_all_iff)
  next
    assume c: "count_list (identifier_list st) i = 1"
    have "data st' ! j = data st ! j" if j: "j < length (data st)"
      and i: "identifier (metadata (data st ! j)) = i" for j
    proof -
      have "j \<notin> set (duplicate_list st)"
        using duplicate_list_only [of j st] i c by auto
      with same j show ?thesis by simp
    qed
    with md len show "filter (\<lambda>e. identifier (metadata e) = i) (data st')
              = filter (\<lambda>e. identifier (metadata e) = i) (data st)"
      by (intro filter_eq_nth) simp_all
  qed
qed

text \<open>
  The lemma above is duplicate completeness for every identifier that no failed entry
  carries (its first hypotheses hold after the Classifier, by
  \<open>extract_loop_catalog_ok\<close> and \<open>extract_loop_identifier_list\<close>), together with the fact
  that entries whose identifier occurs once are left alone. Two copies that also share
  their file name end the run instead: the second copy has overwritten the first in the
  processed folder, and the second move finds no file.
\<close>

lemma same_name_copies_raise:
  "(case main no_flags
           [([''a''], Dir), ([''a'', ''x.epub''], File (Some book1)),
            ([''b''], Dir), ([''b'', ''x.epub''], File (Some book1))] [] of
      Inl (err, st) \<Rightarrow> Some (err, map (\<lambda>e. (is_duplicate e, path e)) (data st))
    | Inr st \<Rightarrow> None) =
   Some (FileNotFoundError,
         [(True, [''[duplicates]'', ''x.epub'']), (True, [''[processed]'', ''x.epub''])])"
  by code_simp

text \<open>
  Claim C2 (duplicate completeness): for every identifier with multiplicity \<open>k > 1\<close> among
  the Processed entries before resolution, exactly \<open>k\<close> entries carry it afterwards as
  duplicates in the duplicates folder, and none with it stays in the processed folder.

  The code at the failing input: \<^verbatim>\<open>a.epub\<close> and \<^verbatim>\<open>b.epub\<close> are copies of one book, and
  \<^verbatim>\<open>bad.epub\<close>, scanned between them, cannot be decoded. Its entry holds the metadata
  object of \<^verbatim>\<open>a.epub\<close>, so the resolver finds three entries with the identifier where two
  were Processed: the failed file is marked as duplicate and moved to the duplicates
  folder as well. Shown: the multiplicity before, the number of duplicates with the
  identifier after, and per entry is_duplicate, is_failed and the location.
\<close>

theorem failed_entry_counted_as_duplicate:
  "(case and_then (new_Epub copies_and_bad []) (\<lambda>s. extract_metadata (detect_epubs s)) of
      Inl x \<Rightarrow> None
    | Inr s1 \<Rightarrow>
        (case find_duplicate_by_identifier s1 of
           Inl x \<Rightarrow> None
         | Inr s2 \<Rightarrow>
             Some (length (filter (\<lambda>e. identifier (metadata e) = ''ISBN-123''
                                        \<and> \<not> is_failed e \<and> \<not> is_duplicate e) (data s1)),
                   length (filter (\<lambda>e. identifier (metadata e) = ''ISBN-123''
                                        \<and> is_duplicate e
                                        \<and> parent (path e) = duplicate_folder) (data s2)),
                   map (\<lambda>e. (is_duplicate e, is_failed e, path e)) (data s2)))) =
   Some (2, 3,
         [(True, False, [''[duplicates]'', ''a.epub'']),
          (True, True, [''[duplicates]'', ''bad.epub'']),
          (True, False, [''[duplicates]'', ''b.epub''])])"
  by code_simp

end
